theory Spec2Isabelle
  imports Main
begin

section \<open>Python strings\<close>

text \<open>
  Text is a \<^typ>\<open>string\<close>. The model is exact for ASCII text; the Devanagari
  keywords of the source are carried as their UTF-8 bytes, which none of the ASCII
  rules below (case folding, white space, digits, word characters) touches, and on
  which Python's substring test \<^verbatim>\<open>a in b\<close> agrees with the test on bytes.
\<close>

definition utf8 :: "nat list \<Rightarrow> string" where
  "utf8 bs = map char_of bs"

definition lower_char :: "char \<Rightarrow> char" where
  "lower_char c =
     (let n = (of_char c :: nat) in if 65 \<le> n \<and> n \<le> 90 then char_of (n + 32) else c)"

definition lower :: "string \<Rightarrow> string" where
  "lower s = map lower_char s"

fun startswith :: "string \<Rightarrow> string \<Rightarrow> bool" where
  "startswith s [] = True"
| "startswith [] (p # ps) = False"
| "startswith (c # cs) (p # ps) = (c = p \<and> startswith cs ps)"

text \<open>\<^verbatim>\<open>sub in s\<close>\<close>

fun contains :: "string \<Rightarrow> string \<Rightarrow> bool" where
  "contains [] sub = (sub = [])"
| "contains (c # cs) sub = (startswith (c # cs) sub \<or> contains cs sub)"

text \<open>\<^verbatim>\<open>any(k in s for k in ks)\<close>\<close>

definition contains_any :: "string \<Rightarrow> string list \<Rightarrow> bool" where
  "contains_any s ks = list_ex (contains s) ks"

definition is_space :: "char \<Rightarrow> bool" where
  "is_space c = (let n = (of_char c :: nat) in (9 \<le> n \<and> n \<le> 13) \<or> (28 \<le> n \<and> n \<le> 32))"

definition is_digit :: "char \<Rightarrow> bool" where
  "is_digit c = (let n = (of_char c :: nat) in 48 \<le> n \<and> n \<le> 57)"

definition strip :: "string \<Rightarrow> string" where
  "strip s = rev (dropWhile is_space (rev (dropWhile is_space s)))"

text \<open>Python's truth value of an optional text: neither \<^verbatim>\<open>None\<close> nor empty.\<close>

definition truthy :: "string option \<Rightarrow> bool" where
  "truthy v = (case v of None \<Rightarrow> False | Some t \<Rightarrow> t \<noteq> [])"

section \<open>Python dictionaries with string keys\<close>

text \<open>
  A dictionary is an association list in insertion order with one entry per key;
  \<^const>\<open>map_of\<close> reads it.
\<close>

type_synonym dict = "(string \<times> string) list"

text \<open>\<^verbatim>\<open>d[k] = v\<close>\<close>

fun dict_set :: "dict \<Rightarrow> string \<Rightarrow> string \<Rightarrow> dict" where
  "dict_set [] k v = [(k, v)]"
| "dict_set ((k', v') # d) k v = (if k' = k then (k, v) # d else (k', v') # dict_set d k v)"

text \<open>\<^verbatim>\<open>d.update(h)\<close>\<close>

fun dict_update :: "dict \<Rightarrow> dict \<Rightarrow> dict" where
  "dict_update d [] = d"
| "dict_update d ((k, v) # h) = dict_update (dict_set d k v) h"

section \<open>The parsed document\<close>

text \<open>
  BeautifulSoup is a library outside the repository. A parsed document is the
  record of what the scraper's queries on it return, in document order.
\<close>

record pdf_anchor =
  href :: string  \<comment> \<open>\<^verbatim>\<open>link.get('href')\<close>\<close>
  link_text :: string  \<comment> \<open>\<^verbatim>\<open>link.get_text(strip=True)\<close>\<close>
  parent_text :: "string option"  \<comment> \<open>\<^verbatim>\<open>link.parent.get_text()\<close>, when there is a parent\<close>

record container_item =
  item_text :: string  \<comment> \<open>\<^verbatim>\<open>item.get_text(strip=True)\<close>\<close>
  item_pdf :: "string option"  \<comment> \<open>href of the first PDF anchor inside the item\<close>

record detail_div =
  div_text :: string  \<comment> \<open>\<^verbatim>\<open>div.get_text()\<close>\<close>
  div_labels :: "(string \<times> string option) list"
    \<comment> \<open>each label/span/strong/b: its stripped text, and the stripped text of its next sibling\<close>

record soup =
  get_text :: string  \<comment> \<open>\<^verbatim>\<open>soup.get_text()\<close>\<close>
  select_count :: "string \<Rightarrow> nat"  \<comment> \<open>\<^verbatim>\<open>len(soup.select(selector))\<close>\<close>
  hidden_inputs :: "(string option \<times> string option) list"
    \<comment> \<open>name and value attribute of every \<^verbatim>\<open>input\<close> of type hidden\<close>
  tables :: "string list list list"
    \<comment> \<open>every table, its rows, the stripped text of each row's td/th cells\<close>
  pdf_links :: "pdf_anchor list"  \<comment> \<open>anchors whose href matches \<^verbatim>\<open>\.pdf\<close>\<close>
  order_containers :: "container_item list list"
    \<comment> \<open>div/ul/ol with an order, judgment or hearing class: their li/p/div items\<close>
  headers :: "string list"  \<comment> \<open>stripped text of every h1..h4\<close>
  detail_divs :: "detail_div list"
    \<comment> \<open>div elements of class case-details, case-info, result or case-data\<close>

section \<open>ObstacleDetector: \<^verbatim>\<open>_check_captcha\<close>\<close>

record captcha_element =
  ce_type :: string
  ce_count :: nat
  ce_selector :: string

record captcha_info =
  has_captcha :: bool
  captcha_type :: "string option"
  captcha_elements :: "captcha_element list"

text \<open>The indicators, as (selector, type).\<close>

definition captcha_indicators :: "(string \<times> string) list" where
  "captcha_indicators =
     [(''img[src*=\"captcha\"]'', ''image''),
      (''input[name*=\"captcha\"]'', ''input''),
      (''div.captcha'', ''div''),
      (''.g-recaptcha'', ''recaptcha''),
      (''iframe[src*=\"recaptcha\"]'', ''recaptcha_iframe''),
      (''script[src*=\"recaptcha\"]'', ''recaptcha_script''),
      (''input[placeholder*=\"captcha\"]'', ''input_placeholder'')]"

text \<open>The body of the loop over the indicators.\<close>

definition captcha_step :: "soup \<Rightarrow> captcha_info \<Rightarrow> string \<times> string \<Rightarrow> captcha_info" where
  "captcha_step s info ind =
     (if select_count s (fst ind) \<noteq> 0
      then info\<lparr>has_captcha := True,
                captcha_type := Some (snd ind),
                captcha_elements := captcha_elements info @
                  [\<lparr>ce_type = snd ind, ce_count = select_count s (fst ind), ce_selector = fst ind\<rparr>]\<rparr>
      else info)"

definition captcha_words :: "string list" where
  "captcha_words = [''captcha'', ''verification code'', ''security code'']"

definition check_captcha :: "soup \<Rightarrow> captcha_info" where
  "check_captcha s =
     (let info = foldl (captcha_step s)
                   \<lparr>has_captcha = False, captcha_type = None, captcha_elements = []\<rparr>
                   captcha_indicators;
          page_text = lower (get_text s)
      in if contains_any page_text captcha_words
         then (let info' = info\<lparr>has_captcha := True\<rparr>
               in if \<not> truthy (captcha_type info')
                  then info'\<lparr>captcha_type := Some ''text_based''\<rparr> else info')
         else info)"

section \<open>SubmissionStrategyGenerator: \<^verbatim>\<open>_extract_hidden_fields\<close>, \<^verbatim>\<open>_prepare_form_data\<close>\<close>

definition hidden_field_names :: "string list" where
  "hidden_field_names =
     [''__VIEWSTATE'', ''__VIEWSTATEGENERATOR'', ''__EVENTVALIDATION'',
      ''__EVENTTARGET'', ''__EVENTARGUMENT'', ''__LASTFOCUS'',
      ''__VIEWSTATEENCRYPTED'', ''__PREVIOUSPAGE'', ''__SCROLLPOSITIONX'',
      ''__SCROLLPOSITIONY'', ''javax.faces.ViewState'', ''authenticity_token'',
      ''csrf_token'', ''_token'', ''session_id'', ''form_token'']"

text \<open>
  First loop: \<^verbatim>\<open>soup.find('input', {'name': field_name, 'type': 'hidden'})\<close> is the first
  hidden input of that name; it is stored when its value is a non-empty string.
\<close>

definition by_name_step :: "soup \<Rightarrow> dict \<Rightarrow> string \<Rightarrow> dict" where
  "by_name_step s d field_name =
     (case find (\<lambda>e. fst e = Some field_name) (hidden_inputs s) of
        None \<Rightarrow> d
      | Some e \<Rightarrow> (case snd e of
                    None \<Rightarrow> d
                  | Some v \<Rightarrow> if v \<noteq> [] then dict_set d field_name v else d))"

text \<open>
  Second loop: every hidden input whose name is a non-empty string not yet stored,
  with \<^verbatim>\<open>hidden.get('value', '')\<close>.
\<close>

definition all_hidden_step :: "dict \<Rightarrow> string option \<times> string option \<Rightarrow> dict" where
  "all_hidden_step d e =
     (case fst e of
        None \<Rightarrow> d
      | Some name \<Rightarrow>
          if name \<noteq> [] \<and> map_of d name = None
          then dict_set d name (case snd e of None \<Rightarrow> [] | Some v \<Rightarrow> v)
          else d)"

definition extract_hidden_fields :: "soup \<Rightarrow> dict" where
  "extract_hidden_fields s =
     foldl all_hidden_step (foldl (by_name_step s) [] hidden_field_names) (hidden_inputs s)"

text \<open>\<^verbatim>\<open>str(n)\<close> for an integer.\<close>

function str_nat :: "nat \<Rightarrow> string" where
  "str_nat n = (if n < 10 then [char_of (48 + n)] else str_nat (n div 10) @ [char_of (48 + n mod 10)])"
  by pat_completeness auto
termination
  by (relation "measure id") auto

declare str_nat.simps [simp del]

definition str_int :: "int \<Rightarrow> string" where
  "str_int i = (if i < 0 then CHR ''-'' # str_nat (nat (- i)) else str_nat (nat i))"

definition form_variations :: "string \<Rightarrow> string \<Rightarrow> int \<Rightarrow> dict list" where
  "form_variations case_type case_number filing_year =
     [[(''case_type'', case_type), (''case_no'', case_number),
       (''case_year'', str_int filing_year), (''submit'', ''Submit''), (''court_code'', ''wardha'')],
      [(''casetype'', case_type), (''caseno'', case_number),
       (''caseyear'', str_int filing_year), (''Submit'', ''Search''), (''district'', ''Wardha'')],
      [(''txtCaseType'', case_type), (''txtCaseNo'', case_number),
       (''txtYear'', str_int filing_year), (''btnSearch'', ''Search''), (''ddlDistrict'', ''Wardha'')],
      [(''ddlCaseType'', case_type), (''txtCaseNumber'', case_number),
       (''ddlYear'', str_int filing_year), (''Button1'', ''Submit''),
       (''ddlCourt'', ''District Court Wardha'')],
      [(''case_type_name'', case_type), (''case_number'', case_number),
       (''filing_year'', str_int filing_year), (''search_button'', ''Get Case Status''),
       (''state_code'', ''27''), (''district_code'', ''664'')],
      [(''type'', case_type), (''number'', case_number),
       (''year'', str_int filing_year), (''action'', ''search'')],
      [(''caseType'', case_type), (''caseNumber'', case_number),
       (''filingYear'', str_int filing_year), (''searchType'', ''case_number''),
       (''format'', ''html'')]]"

definition prepare_form_data :: "soup \<Rightarrow> string \<Rightarrow> string \<Rightarrow> int \<Rightarrow> dict list" where
  "prepare_form_data s case_type case_number filing_year =
     (let hidden_fields = extract_hidden_fields s
      in map (\<lambda>variation. dict_update variation hidden_fields)
           (form_variations case_type case_number filing_year))"

section \<open>The regular expressions of the source\<close>

text \<open>
  A pattern maps the text at a position to the remainders its matches leave, in the
  order in which the backtracking matcher of \<^verbatim>\<open>re\<close> tries them; the first one is the match.
\<close>

type_synonym rx = "string \<Rightarrow> string list"

text \<open>\<^verbatim>\<open>\d{lo,hi}\<close>, greedy.\<close>

definition rx_digits :: "nat \<Rightarrow> nat \<Rightarrow> rx" where
  "rx_digits lo hi s =
     map (\<lambda>n. drop n s) (rev [lo ..< Suc (min hi (length (takeWhile is_digit s)))])"

text \<open>\<^verbatim>\<open>[-/\.]\<close>\<close>

definition rx_sep :: rx where
  "rx_sep s = (case s of [] \<Rightarrow> [] | c # cs \<Rightarrow> if c \<in> set ''-/.'' then [cs] else [])"

definition is_word :: "char \<Rightarrow> bool" where
  "is_word c =
     (let n = (of_char c :: nat)
      in (48 \<le> n \<and> n \<le> 57) \<or> (65 \<le> n \<and> n \<le> 90) \<or> (97 \<le> n \<and> n \<le> 122) \<or> n = 95)"

text \<open>\<^verbatim>\<open>\b\<close> after a digit: the text ends or goes on with a character that is not of a word.\<close>

definition rx_word_end :: rx where
  "rx_word_end s = (case s of [] \<Rightarrow> [s] | c # cs \<Rightarrow> if is_word c then [] else [s])"

definition rx_seq :: "rx list \<Rightarrow> rx" where
  "rx_seq ps s = foldl (\<lambda>rs p. concat (map p rs)) [s] ps"

text \<open>\<^verbatim>\<open>(\d{1,2}[-/\.]\d{1,2}[-/\.]\d{4})\<close> and \<^verbatim>\<open>(\d{4}[-/\.]\d{1,2}[-/\.]\d{1,2})\<close>\<close>

definition date_dmy :: rx where
  "date_dmy = rx_seq [rx_digits 1 2, rx_sep, rx_digits 1 2, rx_sep, rx_digits 4 4]"

definition date_ymd :: rx where
  "date_ymd = rx_seq [rx_digits 4 4, rx_sep, rx_digits 1 2, rx_sep, rx_digits 1 2]"

text \<open>The same two between \<^verbatim>\<open>\b\<close> and \<^verbatim>\<open>\b\<close>; the leading one is checked by \<open>findall_b\<close>.\<close>

definition date_dmy_b :: rx where
  "date_dmy_b = rx_seq [date_dmy, rx_word_end]"

definition date_ymd_b :: rx where
  "date_ymd_b = rx_seq [date_ymd, rx_word_end]"

text \<open>The text a match consumed, given the remainder it left.\<close>

definition matched :: "string \<Rightarrow> string \<Rightarrow> string" where
  "matched s r = take (length s - length r) s"

text \<open>\<^verbatim>\<open>re.search(p, s)\<close>: the match at the leftmost position that has one.\<close>

fun search :: "rx \<Rightarrow> string \<Rightarrow> string option" where
  "search p [] = None"
| "search p (c # cs) = (case p (c # cs) of [] \<Rightarrow> search p cs | r # _ \<Rightarrow> Some (matched (c # cs) r))"

text \<open>
  \<^verbatim>\<open>re.findall\<close> of a pattern that starts with \<^verbatim>\<open>\b\d\<close>: \<open>k\<close> characters are still inside
  the previous match, \<open>prev\<close> is the character before the position.
\<close>

fun findall_b :: "rx \<Rightarrow> nat \<Rightarrow> char option \<Rightarrow> string \<Rightarrow> string list" where
  "findall_b p k prev [] = []"
| "findall_b p (Suc k) prev (c # cs) = findall_b p k (Some c) cs"
| "findall_b p 0 prev (c # cs) =
     (if (case prev of None \<Rightarrow> True | Some b \<Rightarrow> \<not> is_word b)
      then (case p (c # cs) of
              [] \<Rightarrow> findall_b p 0 (Some c) cs
            | r # _ \<Rightarrow> matched (c # cs) r # findall_b p (length (matched (c # cs) r) - 1) (Some c) cs)
      else findall_b p 0 (Some c) cs)"

text \<open>\<^verbatim>\<open>re.findall(r'\d+', s)\<close>: the maximal runs of digits; \<open>run\<close> is the run being read.\<close>

fun digit_runs_from :: "string \<Rightarrow> string \<Rightarrow> string list" where
  "digit_runs_from run [] = (if run = [] then [] else [run])"
| "digit_runs_from run (c # cs) =
     (if is_digit c then digit_runs_from (run @ [c]) cs
      else if run = [] then digit_runs_from [] cs
      else run # digit_runs_from [] cs)"

definition digit_runs :: "string \<Rightarrow> string list" where
  "digit_runs s = digit_runs_from [] s"

text \<open>\<^verbatim>\<open>int(run)\<close> of a run of ASCII digits.\<close>

definition int_of_digits :: "string \<Rightarrow> nat" where
  "int_of_digits run = foldl (\<lambda>n c. 10 * n + (of_char c - 48)) 0 run"

section \<open>DateNormalizer: \<^verbatim>\<open>_parse_date\<close>\<close>

subsection \<open>The library's \<^verbatim>\<open>datetime.strptime\<close>, for the directives the source uses\<close>

text \<open>
  \<^verbatim>\<open>strptime\<close> turns the format into a regular expression (each directive a group of
  alternatives, white space \<^verbatim>\<open>\s+\<close>, any other character itself), matches it at
  the start of the text ignoring case, fails when text remains after the match, and then
  builds the date, which fails when the year, the month or the day does not exist. Month
  names are those of the C locale.
\<close>

datatype directive =
    Pd  \<comment> \<open>\<^verbatim>\<open>%d\<close>\<close>
  | Pm  \<comment> \<open>\<^verbatim>\<open>%m\<close>\<close>
  | PY  \<comment> \<open>\<^verbatim>\<open>%Y\<close>\<close>
  | Py  \<comment> \<open>\<^verbatim>\<open>%y\<close>\<close>
  | PB  \<comment> \<open>\<^verbatim>\<open>%B\<close>\<close>
  | Pb  \<comment> \<open>\<^verbatim>\<open>%b\<close>\<close>
  | Ws  \<comment> \<open>white space in the format\<close>
  | Lit char

definition digit_val :: "char \<Rightarrow> nat" where
  "digit_val c = of_char c - 48"

definition in_range :: "char \<Rightarrow> char \<Rightarrow> char \<Rightarrow> bool" where
  "in_range a b c = ((of_char a :: nat) \<le> of_char c \<and> (of_char c :: nat) \<le> of_char b)"

text \<open>\<^verbatim>\<open>3[0-1]|[1-2]\d|0[1-9]|[1-9]| [1-9]\<close>\<close>

definition rx_day :: "string \<Rightarrow> (nat \<times> string) list" where
  "rx_day s =
     (case s of
        a # b # r \<Rightarrow>
          (if a = CHR ''3'' \<and> in_range CHR ''0'' CHR ''1'' b then [(30 + digit_val b, r)] else []) @
          (if in_range CHR ''1'' CHR ''2'' a \<and> is_digit b then [(10 * digit_val a + digit_val b, r)] else []) @
          (if a = CHR ''0'' \<and> in_range CHR ''1'' CHR ''9'' b then [(digit_val b, r)] else []) @
          (if in_range CHR ''1'' CHR ''9'' a then [(digit_val a, b # r)] else []) @
          (if a = CHR '' '' \<and> in_range CHR ''1'' CHR ''9'' b then [(digit_val b, r)] else [])
      | [a] \<Rightarrow> (if in_range CHR ''1'' CHR ''9'' a then [(digit_val a, [])] else [])
      | [] \<Rightarrow> [])"

text \<open>\<^verbatim>\<open>1[0-2]|0[1-9]|[1-9]\<close>\<close>

definition rx_month :: "string \<Rightarrow> (nat \<times> string) list" where
  "rx_month s =
     (case s of
        a # b # r \<Rightarrow>
          (if a = CHR ''1'' \<and> in_range CHR ''0'' CHR ''2'' b then [(10 + digit_val b, r)] else []) @
          (if a = CHR ''0'' \<and> in_range CHR ''1'' CHR ''9'' b then [(digit_val b, r)] else []) @
          (if in_range CHR ''1'' CHR ''9'' a then [(digit_val a, b # r)] else [])
      | [a] \<Rightarrow> (if in_range CHR ''1'' CHR ''9'' a then [(digit_val a, [])] else [])
      | [] \<Rightarrow> [])"

text \<open>\<^verbatim>\<open>\d\d\<close> and \<^verbatim>\<open>\d\d\d\d\<close>\<close>

definition rx_number :: "nat \<Rightarrow> string \<Rightarrow> (nat \<times> string) list" where
  "rx_number n s =
     (if n \<le> length s \<and> list_all is_digit (take n s) then [(int_of_digits (take n s), drop n s)] else [])"

definition month_names :: "string list" where
  "month_names = [''january'', ''february'', ''march'', ''april'', ''may'', ''june'', ''july'',
                  ''august'', ''september'', ''october'', ''november'', ''december'']"

definition month_abbrs :: "string list" where
  "month_abbrs = [''jan'', ''feb'', ''mar'', ''apr'', ''may'', ''jun'', ''jul'',
                  ''aug'', ''sep'', ''oct'', ''nov'', ''dec'']"

text \<open>
  A group of names: no name begins another, so at most one alternative matches and the
  order of the alternatives does not show. The value is the number of the month.
\<close>

definition rx_name :: "string list \<Rightarrow> string \<Rightarrow> (nat \<times> string) list" where
  "rx_name names s =
     concat (map (\<lambda>(i, name). if startswith (lower s) name then [(Suc i, drop (length name) s)] else [])
               (enumerate 0 names))"

text \<open>\<^verbatim>\<open>\s+\<close>, greedy.\<close>

definition rx_spaces :: "string \<Rightarrow> (nat \<times> string) list" where
  "rx_spaces s = map (\<lambda>n. (0, drop n s)) (rev [1 ..< Suc (length (takeWhile is_space s))])"

definition rx_lit :: "char \<Rightarrow> string \<Rightarrow> (nat \<times> string) list" where
  "rx_lit c s = (case s of [] \<Rightarrow> [] | a # r \<Rightarrow> if lower_char a = lower_char c then [(0, r)] else [])"

fun rx_directive :: "directive \<Rightarrow> string \<Rightarrow> (nat \<times> string) list" where
  "rx_directive Pd = rx_day"
| "rx_directive Pm = rx_month"
| "rx_directive PY = rx_number 4"
| "rx_directive Py = rx_number 2"
| "rx_directive PB = rx_name month_names"
| "rx_directive Pb = rx_name month_abbrs"
| "rx_directive Ws = rx_spaces"
| "rx_directive (Lit c) = rx_lit c"

text \<open>All the ways the format matches at the start of the text, first the matcher's own.\<close>

fun match_format :: "directive list \<Rightarrow> string \<Rightarrow> ((directive \<times> nat) list \<times> string) list" where
  "match_format [] s = [([], s)]"
| "match_format (d # ds) s =
     concat (map (\<lambda>(v, r). map (\<lambda>(vs, r'). ((d, v) # vs, r')) (match_format ds r)) (rx_directive d s))"

definition leap_year :: "nat \<Rightarrow> bool" where
  "leap_year y = (y mod 4 = 0 \<and> (y mod 100 \<noteq> 0 \<or> y mod 400 = 0))"

definition days_in_month :: "nat \<Rightarrow> nat \<Rightarrow> nat" where
  "days_in_month y m =
     (if m = 2 then (if leap_year y then 29 else 28)
      else if m \<in> {4, 6, 9, 11} then 30 else 31)"

text \<open>The year, month and day of the groups found; a two-digit year up to 68 is of the 2000s.\<close>

definition group_year :: "(directive \<times> nat) list \<Rightarrow> nat" where
  "group_year vs =
     (case map_of vs PY of
        Some y \<Rightarrow> y
      | None \<Rightarrow> (case map_of vs Py of
                   Some y \<Rightarrow> if y \<le> 68 then y + 2000 else y + 1900
                 | None \<Rightarrow> 1900))"

definition group_month :: "(directive \<times> nat) list \<Rightarrow> nat" where
  "group_month vs =
     (case map_of vs Pm of
        Some m \<Rightarrow> m
      | None \<Rightarrow> (case map_of vs PB of
                   Some m \<Rightarrow> m
                 | None \<Rightarrow> (case map_of vs Pb of Some m \<Rightarrow> m | None \<Rightarrow> 1)))"

definition group_day :: "(directive \<times> nat) list \<Rightarrow> nat" where
  "group_day vs = (case map_of vs Pd of Some d \<Rightarrow> d | None \<Rightarrow> 1)"

text \<open>\<^verbatim>\<open>datetime.strptime(s, fmt)\<close>: the (year, month, day), or \<open>None\<close> for its ValueError.\<close>

definition strptime :: "string \<Rightarrow> directive list \<Rightarrow> (nat \<times> nat \<times> nat) option" where
  "strptime s fmt =
     (case match_format fmt s of
        [] \<Rightarrow> None
      | (vs, r) # _ \<Rightarrow>
          if r \<noteq> [] then None
          else (let y = group_year vs; m = group_month vs; d = group_day vs
                in if 1 \<le> y \<and> 1 \<le> m \<and> m \<le> 12 \<and> 1 \<le> d \<and> d \<le> days_in_month y m
                   then Some (y, m, d) else None))"

subsection \<open>The normalizer\<close>

definition date_formats :: "directive list list" where
  "date_formats =
     [[Pd, Lit CHR ''-'', Pm, Lit CHR ''-'', PY], [Pd, Lit CHR ''/'', Pm, Lit CHR ''/'', PY],
      [PY, Lit CHR ''-'', Pm, Lit CHR ''-'', Pd], [PY, Lit CHR ''/'', Pm, Lit CHR ''/'', Pd],
      [Pd, Lit CHR ''-'', Pm, Lit CHR ''-'', Py], [Pd, Lit CHR ''/'', Pm, Lit CHR ''/'', Py],
      [Py, Lit CHR ''-'', Pm, Lit CHR ''-'', Pd], [Py, Lit CHR ''/'', Pm, Lit CHR ''/'', Pd],
      [Pd, Lit CHR ''.'', Pm, Lit CHR ''.'', PY], [Pd, Lit CHR ''.'', Pm, Lit CHR ''.'', Py],
      [PY, Lit CHR ''.'', Pm, Lit CHR ''.'', Pd],
      [Pd, Ws, Pm, Ws, PY], [Pd, Ws, Pm, Ws, Py], [PY, Ws, Pm, Ws, Pd],
      [PB, Ws, Pd, Lit CHR '','', Ws, PY], [Pb, Ws, Pd, Lit CHR '','', Ws, PY],
      [Pd, Ws, PB, Ws, PY], [Pd, Ws, Pb, Ws, PY],
      [PB, Ws, Pd, Ws, PY], [Pb, Ws, Pd, Ws, PY],
      [Pd, Lit CHR ''-'', Pm, Lit CHR ''-'', PY], [Pd, Lit CHR ''/'', Pm, Lit CHR ''/'', PY]]"

text \<open>\<^verbatim>\<open>s.zfill(w)\<close> of a number's digits: the format \<^verbatim>\<open>{n:0wd}\<close>.\<close>

definition zfill :: "nat \<Rightarrow> string \<Rightarrow> string" where
  "zfill w s = replicate (w - length s) CHR ''0'' @ s"

text \<open>
  \<^verbatim>\<open>f"{year:04d}-{month:02d}-{day:02d}"\<close>, which is also \<^verbatim>\<open>strftime('%Y-%m-%d')\<close> for the
  years the source lets through.
\<close>

definition iso_date :: "nat \<Rightarrow> nat \<Rightarrow> nat \<Rightarrow> string" where
  "iso_date y m d = zfill 4 (str_nat y) @ ''-'' @ zfill 2 (str_nat m) @ ''-'' @ zfill 2 (str_nat d)"

text \<open>The loop over the formats: the first one that parses to a year in 1950..2030.\<close>

fun try_formats :: "string \<Rightarrow> directive list list \<Rightarrow> string option" where
  "try_formats s [] = None"
| "try_formats s (fmt # fmts) =
     (case strptime s fmt of
        None \<Rightarrow> try_formats s fmts
      | Some (y, m, d) \<Rightarrow>
          if 1950 \<le> y \<and> y \<le> 2030 then Some (iso_date y m d) else try_formats s fmts)"

text \<open>
  \<^verbatim>\<open>int\<close> refuses a text of more than 4300 digits with a ValueError (the interpreter's
  default limit), which the source catches.
\<close>

definition int_max_str_digits :: nat where
  "int_max_str_digits = 4300"

text \<open>The manual extraction from the first three runs of digits.\<close>

definition manual_date :: "string \<Rightarrow> string option" where
  "manual_date s =
     (case digit_runs s of
        r1 # r2 # r3 # _ \<Rightarrow>
          if list_ex (\<lambda>r. int_max_str_digits < length r) [r1, r2, r3] then None
          else (let day = int_of_digits r1; month = int_of_digits r2; year0 = int_of_digits r3;
                    year = (if year0 < 100 then (if year0 < 30 then year0 + 2000 else year0 + 1900)
                            else year0)
                in if 1 \<le> day \<and> day \<le> 31 \<and> 1 \<le> month \<and> month \<le> 12 \<and> 1950 \<le> year \<and> year \<le> 2030
                   then Some (iso_date year month day) else None)
      | _ \<Rightarrow> None)"

definition parse_date :: "string \<Rightarrow> string option" where
  "parse_date date_str =
     (if date_str = [] \<or> strip date_str = [] then None
      else (let s = strip date_str
            in case try_formats s date_formats of
                 Some canon \<Rightarrow> Some canon
               | None \<Rightarrow> (case manual_date s of
                            Some canon \<Rightarrow> Some canon
                          | None \<Rightarrow> Some s)))"

subsection \<open>The words of the specification\<close>



section \<open>RecordExtractor\<close>

subsection \<open>The record\<close>

text \<open>
  A document link is the href itself when it starts with \<^verbatim>\<open>http\<close>, and otherwise the
  library's \<^verbatim>\<open>urljoin(base_url, href)\<close>, kept as the call.
\<close>

datatype url = Absolute string | Urljoin string string

record order_entry =
  description :: string
  pdf_link :: "url option"
  date :: "string option"
  court :: string

record patterns =
  pattern_dates :: "string list"
    \<comment> \<open>the matches of the two date patterns; the source keeps up to five distinct ones of them\<close>
  legal_terms_found :: "string list"
  maharashtra_terms_found :: "string list"

text \<open>
  The dictionary of a case. Its time stamp \<^verbatim>\<open>last_updated\<close> and the diagnostic trail
  \<^verbatim>\<open>debug_info\<close>, which no branch of the scraper reads, are left out.
\<close>

record case_data =
  case_title :: string
  court_name :: string
  petitioner :: "string list"
  respondent :: "string list"
  filing_date :: "string option"
  next_hearing_date :: "string option"
  status :: "string option"
  stage :: "string option"
  judge :: "string option"
  orders :: "order_entry list"
  advisory_note :: "string option"  \<comment> \<open>the key \<^verbatim>\<open>note\<close>\<close>
  patterns_found :: "patterns option"

subsection \<open>\<^verbatim>\<open>_extract_orders\<close>\<close>

definition base_url :: string where
  "base_url = ''https://wardha.dcourts.gov.in''"

definition absolute_url :: "string \<Rightarrow> url" where
  "absolute_url h = (if startswith h ''http'' then Absolute h else Urljoin base_url h)"

text \<open>
  The loop over the two date patterns: the first pattern found anywhere in the text gives
  the date, normalized.
\<close>

definition find_date :: "string \<Rightarrow> string option" where
  "find_date t =
     (case search date_dmy t of
        Some m \<Rightarrow> parse_date m
      | None \<Rightarrow> (case search date_ymd t of Some m \<Rightarrow> parse_date m | None \<Rightarrow> None))"

text \<open>First pass, one PDF anchor: the entry is appended without a look at the list.\<close>

definition pdf_step :: "order_entry list \<Rightarrow> pdf_anchor \<Rightarrow> order_entry list" where
  "pdf_step os a =
     (if href a = [] then os
      else (let link_text' = (if link_text a = [] then ''Wardha District Court Document''
                              else link_text a);
                d = find_date link_text';
                d' = (if truthy d then d
                      else (case parent_text a of
                              None \<Rightarrow> d
                            | Some pt \<Rightarrow> (case search date_dmy pt of
                                           Some m \<Rightarrow> parse_date m
                                         | None \<Rightarrow> (case search date_ymd pt of
                                                      Some m \<Rightarrow> parse_date m
                                                    | None \<Rightarrow> d))))
            in os @ [\<lparr>description = link_text', pdf_link = Some (absolute_url (href a)),
                      date = d', court = ''Wardha District Court''\<rparr>]))"

text \<open>\<^verbatim>\<open>' '.join(cells)\<close>\<close>

fun join_space :: "string list \<Rightarrow> string" where
  "join_space [] = []"
| "join_space [c] = c"
| "join_space (c # cs) = c @ '' '' @ join_space cs"

definition order_row_keywords :: "string list" where
  "order_row_keywords =
     [''order'',
      ''judgment'',
      ''date'',
      utf8 [224, 164, 134, 224, 164, 166, 224, 165, 135, 224, 164, 182],
      utf8 [224, 164, 168, 224, 164, 191, 224, 164, 176, 224, 165, 141, 224, 164, 163, 224,
            164, 175]]"

text \<open>Second pass, one table row.\<close>

definition row_order_step :: "order_entry list \<Rightarrow> string list \<Rightarrow> order_entry list" where
  "row_order_step os cells =
     (if 2 \<le> length cells
      then (let first_cell = lower (cells ! 0)
            in if contains_any first_cell order_row_keywords
               then (let order_text = join_space cells
                     in if 20 < length order_text
                           \<and> \<not> list_ex (\<lambda>e. description e = order_text) os
                           \<and> contains_any (lower order_text) [''order'', ''judgment'', ''hearing'', ''notice'']
                        then os @ [\<lparr>description = order_text, pdf_link = None,
                                    date = find_date order_text, court = ''Wardha District Court''\<rparr>]
                        else os)
               else os)
      else os)"

text \<open>Third pass, one item of an order container.\<close>

definition item_order_step :: "order_entry list \<Rightarrow> container_item \<Rightarrow> order_entry list" where
  "item_order_step os it =
     (if 15 < length (item_text it)
         \<and> contains_any (lower (item_text it)) [''order'', ''hearing'', ''notice'', ''judgment'']
      then (let e = \<lparr>description = item_text it,
                      pdf_link = (case item_pdf it of None \<Rightarrow> None | Some h \<Rightarrow> Some (absolute_url h)),
                      date = find_date (item_text it), court = ''Wardha District Court''\<rparr>
            in if \<not> list_ex (\<lambda>existing. description existing = description e) os
               then os @ [e] else os)
      else os)"

text \<open>The three passes, before the cut to ten entries.\<close>

definition discovered_orders :: "soup \<Rightarrow> order_entry list" where
  "discovered_orders s =
     (let os1 = foldl pdf_step [] (pdf_links s);
          os2 = foldl row_order_step os1 (concat (tables s));
          os3 = foldl item_order_step os2 (concat (order_containers s))
      in os3)"

definition extract_orders :: "soup \<Rightarrow> order_entry list" where
  "extract_orders s = take 10 (discovered_orders s)"

subsection \<open>\<^verbatim>\<open>_extract_case_info\<close>\<close>














subsection \<open>\<^verbatim>\<open>_is_valid_case_data\<close>\<close>


subsection \<open>\<^verbatim>\<open>_alternative_parsing\<close>\<close>

definition legal_terms :: "string list" where
  "legal_terms =
     [''petitioner'',
      ''respondent'',
      ''plaintiff'',
      ''defendant'',
      ''hearing'',
      ''order'',
      ''judgment'',
      ''court'',
      ''case'',
      ''filing'',
      ''status'',
      utf8 [224, 164, 133, 224, 164, 176, 224, 165, 141, 224, 164, 156, 224, 164, 166, 224,
            164, 190, 224, 164, 176],
      utf8 [224, 164, 170, 224, 165, 141, 224, 164, 176, 224, 164, 164, 224, 164, 191, 224,
            164, 181, 224, 164, 190, 224, 164, 166, 224, 165, 128],
      utf8 [224, 164, 184, 224, 165, 129, 224, 164, 168, 224, 164, 190, 224, 164, 181, 224,
            164, 163, 224, 165, 128],
      utf8 [224, 164, 134, 224, 164, 166, 224, 165, 135, 224, 164, 182],
      utf8 [224, 164, 168, 224, 165, 141, 224, 164, 175, 224, 164, 190, 224, 164, 175, 224,
            164, 190, 224, 164, 178, 224, 164, 175],
      utf8 [224, 164, 149, 224, 165, 135, 224, 164, 184]]"

definition maharashtra_terms :: "string list" where
  "maharashtra_terms =
     [''wardha'',
      ''maharashtra'',
      ''district court'',
      utf8 [224, 164, 156, 224, 164, 191, 224, 164, 178, 224, 165, 141, 224, 164, 185, 224,
            164, 190, 32, 224, 164, 168, 224, 165, 141, 224, 164, 175, 224, 164, 190, 224, 164,
            175, 224, 164, 190, 224, 164, 178, 224, 164, 175]]"

definition find_patterns :: "string \<Rightarrow> patterns" where
  "find_patterns page_text =
     \<lparr>pattern_dates = findall_b date_dmy_b 0 None page_text @ findall_b date_ymd_b 0 None page_text,
      legal_terms_found = filter (contains (lower page_text)) legal_terms,
      maharashtra_terms_found = filter (contains (lower page_text)) maharashtra_terms\<rparr>"

text \<open>\<^verbatim>\<open>if patterns_found:\<close> some key was set.\<close>

definition any_pattern :: "patterns \<Rightarrow> bool" where
  "any_pattern pf =
     (pattern_dates pf \<noteq> [] \<or> legal_terms_found pf \<noteq> [] \<or> maharashtra_terms_found pf \<noteq> [])"

definition alternative_parsing ::
  "soup \<Rightarrow> string \<Rightarrow> string \<Rightarrow> string \<Rightarrow> int \<Rightarrow> case_data option" where
  "alternative_parsing s page_text case_type case_number filing_year =
     (if contains page_text case_number \<and> contains page_text (str_int filing_year)
         \<and> 500 < length (strip page_text)
      then (let pf = find_patterns page_text
            in if any_pattern pf
               then Some \<lparr>case_title = case_type @ '' '' @ case_number @ ''/'' @ str_int filing_year,
                          court_name = ''District and Sessions Court, Wardha'',
                          petitioner = [''Case information available - please check court website directly''],
                          respondent = [''Detailed parsing required - manual verification recommended''],
                          filing_date = Some (str_int filing_year @ ''-01-01''),
                          next_hearing_date = None,
                          status = Some ''Case found but requires detailed parsing'',
                          stage = Some ''Information extraction in progress'',
                          judge = None,
                          orders = [],
                          advisory_note = Some ''Partial information extracted from Wardha District Court. Please verify details on court website.'',
                          patterns_found = Some pf\<rparr>
               else None)
      else None)"

section \<open>The transport\<close>

text \<open>
  The HTTP session is a capability outside the scraper: a network answers a request with
  a response or fails with an exception. \<open>parsed\<close> is the document BeautifulSoup makes
  of the response's content.
\<close>

datatype http_method = GET | POST

record request =
  req_method :: http_method
  req_url :: string
  req_data :: dict

record response =
  status_code :: nat
  content_length :: nat  \<comment> \<open>\<^verbatim>\<open>len(response.content)\<close>\<close>
  content_type :: string  \<comment> \<open>\<^verbatim>\<open>response.headers.get('content-type', '')\<close>\<close>
  body_text :: string  \<comment> \<open>\<^verbatim>\<open>response.text\<close>\<close>
  parsed :: soup

datatype http = Failed string | Response response

type_synonym network = "request \<Rightarrow> http"

section \<open>ResponseClassifier and extraction: \<^verbatim>\<open>_parse_response\<close>\<close>






section \<open>EndpointResolver: \<^verbatim>\<open>_find_working_url\<close>\<close>

text \<open>
  The scraper instance: its candidate URLs, its cached URL, and the requests it has sent
  through its session so far. The diagnostic trail \<^verbatim>\<open>debug_info\<close> and
  \<^verbatim>\<open>last_raw_response\<close>, which are written and never read, are left out.
\<close>

record scraper =
  search_urls :: "string list"
  working_url :: "string option"
  requests :: "request list"

text \<open>\<^verbatim>\<open>__init__\<close>\<close>

definition new_scraper :: scraper where
  "new_scraper =
     \<lparr>search_urls =
        [base_url @ ''/case-status-search-by-case-number/'',
         base_url @ ''/case-status-search-by-case-type/'',
         base_url @ ''/case-status/'',
         ''https://districts.ecourts.gov.in/wardha/case-status'',
         ''https://districts.ecourts.gov.in/wardha'',
         ''https://services.ecourts.gov.in/ecourtindia_v6/'',
         ''https://ecourts.gov.in/ecourts_home/static/district_court.php?state_cd=27&dist_cd=664'',
         base_url @ ''/'',
         ''https://hcservices.ecourts.gov.in/hcservices/Client/'',
         ''https://njdg.ecourts.gov.in/njdgnew/index.php''],
      working_url = None,
      requests = []\<rparr>"

definition valid_indicators :: "string list" where
  "valid_indicators =
     [''case'', ''court'', ''wardha'', ''district'', ''ecourts'',
      ''case status'', ''case number'', ''filing'', ''petitioner'',
      ''maharashtra'', ''judicial'', ''search'']"

text \<open>\<^verbatim>\<open>self.session.get(url, ...)\<close> without parameters.\<close>

definition get_request :: "string \<Rightarrow> request" where
  "get_request url = \<lparr>req_method = GET, req_url = url, req_data = []\<rparr>"

text \<open>The loop over the candidates; an exception of the request goes on to the next one.\<close>

fun probe_urls :: "network \<Rightarrow> string list \<Rightarrow> scraper \<Rightarrow> string option \<times> scraper" where
  "probe_urls net [] sc = (None, sc)"
| "probe_urls net (url # urls) sc =
     (let sc' = sc\<lparr>requests := requests sc @ [get_request url]\<rparr>
      in case net (get_request url) of
           Failed e \<Rightarrow> probe_urls net urls sc'
         | Response r \<Rightarrow>
             if status_code r = 200
             then (let content_lower = lower (body_text r);
                       valid_count = length (filter (contains content_lower) valid_indicators)
                   in if 1000 < content_length r
                         \<and> contains (lower (content_type r)) ''html''
                         \<and> 3 \<le> valid_count
                      then (Some url, sc'\<lparr>working_url := Some url\<rparr>)
                      else probe_urls net urls sc')
             else probe_urls net urls sc')"

definition find_working_url :: "network \<Rightarrow> scraper \<Rightarrow> string option \<times> scraper" where
  "find_working_url net sc =
     (if truthy (working_url sc) then (working_url sc, sc)
      else probe_urls net (search_urls sc) sc)"

text \<open>The acceptance test in the words of the specification.\<close>

definition signal_score :: "string \<Rightarrow> nat" where
  "signal_score body = length (filter (contains (lower body)) valid_indicators)"

definition candidate_accepted :: "http \<Rightarrow> bool" where
  "candidate_accepted h =
     (case h of
        Failed e \<Rightarrow> False
      | Response r \<Rightarrow> status_code r = 200 \<and> 1000 < content_length r
                      \<and> contains (lower (content_type r)) ''html'' \<and> 3 \<le> signal_score (body_text r))"

text \<open>The candidates that a resolution requests: those before the first accepted one, and it.\<close>

definition probed :: "network \<Rightarrow> string list \<Rightarrow> string list" where
  "probed net urls =
     takeWhile (\<lambda>u. \<not> candidate_accepted (net (get_request u))) urls @
     (case find (\<lambda>u. candidate_accepted (net (get_request u))) urls of None \<Rightarrow> [] | Some u \<Rightarrow> [u])"

section \<open>SubmissionExecutor: \<^verbatim>\<open>_submit_form\<close>, \<^verbatim>\<open>_attempt_search_submissions\<close>\<close>








section \<open>The engine: \<^verbatim>\<open>fetch_case_data\<close>\<close>




section \<open>Example documents and networks\<close>

definition empty_soup :: soup where
  "empty_soup =
     \<lparr>get_text = [], select_count = (\<lambda>selector. 0), hidden_inputs = [], tables = [],
      pdf_links = [], order_containers = [], headers = [], detail_divs = []\<rparr>"

text \<open>
  A search form that shows a CAPTCHA image beside the input for its code:
  \<^verbatim>\<open><form><img src="/captcha.php"><input name="captcha"></form>\<close>
\<close>

definition captcha_form_page :: soup where
  "captcha_form_page =
     empty_soup\<lparr>select_count :=
       (\<lambda>selector. if selector = ''img[src*=\"captcha\"]'' \<or> selector = ''input[name*=\"captcha\"]''
                   then 1 else 0)\<rparr>"

text \<open>
  A search form with a hidden field named like a field of the sixth scheme:
  \<^verbatim>\<open><form><input type="hidden" name="action" value="lookup"></form>\<close>
\<close>

definition action_form_page :: soup where
  "action_form_page = empty_soup\<lparr>hidden_inputs := [(Some ''action'', Some ''lookup'')]\<rparr>"

text \<open>
  A long page that names case 123 of 2020 among other words, and one that shows the two
  numbers and nothing else that the fallback looks for.
\<close>

definition padding :: string where
  "padding = replicate 500 CHR ''z''"

definition mention_text :: string where
  "mention_text = ''case 123 of 2020 '' @ padding"

definition mention_page :: soup where
  "mention_page = empty_soup\<lparr>get_text := mention_text\<rparr>"





text \<open>
  Two orders offered under the same link text:
  \<^verbatim>\<open><a href="/orders/1.pdf">Download</a> <a href="/orders/2.pdf">Download</a>\<close>
\<close>

definition two_downloads_page :: soup where
  "two_downloads_page =
     empty_soup\<lparr>get_text := ''Download Download'',
       pdf_links := [\<lparr>href = ''/orders/1.pdf'', link_text = ''Download'', parent_text = Some ''Download Download''\<rparr>,
                     \<lparr>href = ''/orders/2.pdf'', link_text = ''Download'', parent_text = Some ''Download Download''\<rparr>]\<rparr>"

text \<open>
  The home page of the court, long enough to be taken for one, and the same page with
  the CAPTCHA of \<open>captcha_form_page\<close> in it.
\<close>

definition court_home_text :: string where
  "court_home_text = ''district court wardha case status '' @ padding @ padding @ padding"

definition court_home_response :: response where
  "court_home_response =
     \<lparr>status_code = 200, content_length = 1534, content_type = ''text/html; charset=UTF-8'',
      body_text = court_home_text, parsed = empty_soup\<lparr>get_text := court_home_text\<rparr>\<rparr>"


definition missing_response :: response where
  "missing_response =
     \<lparr>status_code = 404, content_length = 9, content_type = ''text/html'',
      body_text = ''Not Found'', parsed = empty_soup\<lparr>get_text := ''Not Found''\<rparr>\<rparr>"

text \<open>
  Scenario 1: the first candidate answers 404 and the second with the home page; no
  other host answers.
\<close>

definition scenario_network :: "response \<Rightarrow> network" where
  "scenario_network home req =
     (if req_url req = base_url @ ''/case-status-search-by-case-number/'' then Response missing_response
      else if req_url req = base_url @ ''/case-status-search-by-case-type/'' then Response home
      else Failed ''connection refused'')"

definition down_network :: network where
  "down_network req = Failed ''connection timed out''"


section \<open>Substrings\<close>

lemma startswith_iff: "startswith s p \<longleftrightarrow> (\<exists>b. s = p @ b)"
  by (induction s p rule: startswith.induct) auto

lemma contains_iff: "contains s sub \<longleftrightarrow> (\<exists>a b. s = a @ sub @ b)"
proof (induction s)
  case Nil
  then show ?case by auto
next
  case (Cons c cs)
  show ?case
  proof
    assume "contains (c # cs) sub"
    then consider "startswith (c # cs) sub" | "contains cs sub" by auto
    then show "\<exists>a b. c # cs = a @ sub @ b"
    proof cases
      case 1
      then obtain b where "c # cs = sub @ b" by (auto simp: startswith_iff)
      then have "c # cs = [] @ sub @ b" by simp
      then show ?thesis by blast
    next
      case 2
      then obtain a b where "cs = a @ sub @ b" using Cons.IH by auto
      then have "c # cs = (c # a) @ sub @ b" by simp
      then show ?thesis by blast
    qed
  next
    assume "\<exists>a b. c # cs = a @ sub @ b"
    then obtain a b where ab: "c # cs = a @ sub @ b" by auto
    show "contains (c # cs) sub"
    proof (cases a)
      case Nil
      then have "startswith (c # cs) sub" using ab by (simp add: startswith_iff)
      then show ?thesis by simp
    next
      case (Cons x a')
      then have "cs = a' @ sub @ b" using ab by simp
      then show ?thesis using Cons.IH by auto
    qed
  qed
qed

section \<open>The kind that the obstacle detector reports\<close>

lemma foldl_captcha_type:
  "captcha_type (foldl (captcha_step s) info inds) =
     (case find (\<lambda>ind. select_count s (fst ind) \<noteq> 0) (rev inds) of
        Some ind \<Rightarrow> Some (snd ind) | None \<Rightarrow> captcha_type info)"
  by (induction inds rule: rev_induct) (auto simp: captcha_step_def)

lemma find_rev_indicator_nonempty:
  "find P (rev captcha_indicators) = Some ind \<Longrightarrow> snd ind \<noteq> []"
  by (auto simp: captcha_indicators_def split: if_splits)

text \<open>
  C8, as the code has it: the loop runs over every indicator and each match overwrites
  the kind, so the kind reported is that of the last structural indicator that matches,
  in the order of the list; the kind \<open>text_based\<close> is reported only when no structural
  indicator matched and the page text has one of the CAPTCHA words.
\<close>

theorem check_captcha_last_kind:
  "captcha_type (check_captcha s) =
     (case find (\<lambda>ind. select_count s (fst ind) \<noteq> 0) (rev captcha_indicators) of
        Some ind \<Rightarrow> Some (snd ind)
      | None \<Rightarrow> if contains_any (lower (get_text s)) captcha_words
                then Some ''text_based'' else None)"
  by (auto simp: check_captcha_def truthy_def Let_def foldl_captcha_type
      split: option.splits dest: find_rev_indicator_nonempty)

theorem check_captcha_last_kind_witness:
  "captcha_type (check_captcha captcha_form_page) = Some ''input''"
  using check_captcha_last_kind [of captcha_form_page]
  by (simp add: captcha_form_page_def empty_soup_def captcha_indicators_def)

text \<open>
  C8 as stated fails: on a page with a CAPTCHA image and an input for its code, the first
  indicator that matches is the image, and the kind reported is \<open>input\<close>.
\<close>

theorem check_captcha_first_kind_counterexample:
  "find (\<lambda>ind. select_count captcha_form_page (fst ind) \<noteq> 0) captcha_indicators
     = Some (''img[src*=\"captcha\"]'', ''image'')
   \<and> captcha_type (check_captcha captcha_form_page) = Some ''input''
   \<and> captcha_type (check_captcha captcha_form_page) \<noteq> Some ''image''"
  by (simp add: check_captcha_def truthy_def captcha_step_def captcha_form_page_def
      empty_soup_def captcha_indicators_def captcha_words_def contains_any_def lower_def)

section \<open>Hidden fields and field-naming schemes\<close>

lemma map_of_dict_set: "map_of (dict_set d k v) = (map_of d)(k \<mapsto> v)"
  by (induction d k v rule: dict_set.induct) auto

lemma keys_dict_set: "fst ` set (dict_set d k v) = insert k (fst ` set d)"
  by (induction d k v rule: dict_set.induct) auto

lemma distinct_dict_set: "distinct (map fst d) \<Longrightarrow> distinct (map fst (dict_set d k v))"
  by (induction d k v rule: dict_set.induct) (auto simp: keys_dict_set)

lemma map_of_dict_update:
  "distinct (map fst h) \<Longrightarrow> map_of (dict_update d h) = map_of d ++ map_of h"
proof (induction d h rule: dict_update.induct)
  case (1 d)
  then show ?case by simp
next
  case (2 d k v h)
  then have "map_of h k = None" by (auto simp: map_of_eq_None_iff)
  then have "map_of (dict_set d k v) ++ map_of h = map_of d ++ map_of ((k, v) # h)"
    by (auto simp: map_of_dict_set map_add_def fun_eq_iff split: option.splits)
  moreover have "map_of (dict_update (dict_set d k v) h) = map_of (dict_set d k v) ++ map_of h"
    using 2 by simp
  ultimately show ?case by (simp del: map_of.simps)
qed

lemma distinct_by_name:
  "distinct (map fst d) \<Longrightarrow> distinct (map fst (foldl (by_name_step s) d ns))"
  by (induction ns arbitrary: d)
    (auto simp: by_name_step_def distinct_dict_set split: option.splits)

lemma distinct_all_hidden:
  "distinct (map fst d) \<Longrightarrow> distinct (map fst (foldl all_hidden_step d es))"
  by (induction es arbitrary: d)
    (auto simp: all_hidden_step_def distinct_dict_set split: option.splits)

lemma distinct_hidden_fields: "distinct (map fst (extract_hidden_fields s))"
  by (simp add: extract_hidden_fields_def distinct_by_name distinct_all_hidden)

text \<open>
  C2, as the code has it: every scheme, in the fixed order, is updated with the hidden
  fields, so for a key of both the value of the hidden field stands, and the value of the
  scheme stands only for the keys that no hidden field has.
\<close>

theorem prepare_form_data_hidden_wins:
  "map map_of (prepare_form_data s case_type case_number filing_year) =
     map (\<lambda>variation. map_of variation ++ map_of (extract_hidden_fields s))
       (form_variations case_type case_number filing_year)"
  by (simp add: prepare_form_data_def Let_def map_of_dict_update distinct_hidden_fields)

theorem prepare_form_data_hidden_wins_witness:
  "map (\<lambda>d. d ''action'') (map map_of (prepare_form_data action_form_page ''CC'' ''123'' 2020))
     = [Some ''lookup'', Some ''lookup'', Some ''lookup'', Some ''lookup'', Some ''lookup'',
        Some ''lookup'', Some ''lookup'']"
  using prepare_form_data_hidden_wins [of action_form_page "''CC''" "''123''" 2020]
  by (simp add: form_variations_def extract_hidden_fields_def action_form_page_def
      empty_soup_def hidden_field_names_def by_name_step_def all_hidden_step_def)

text \<open>
  C2 as stated fails: the sixth scheme gives \<open>action\<close> the value \<open>search\<close>, and a hidden
  field of that name replaces it.
\<close>

theorem prepare_form_data_scheme_precedence_counterexample:
  "map_of (form_variations ''CC'' ''123'' 2020 ! 5) ''action'' = Some ''search''
   \<and> map_of (extract_hidden_fields action_form_page) ''action'' = Some ''lookup''
   \<and> map_of (prepare_form_data action_form_page ''CC'' ''123'' 2020 ! 5) ''action'' = Some ''lookup''"
  by (simp add: prepare_form_data_def form_variations_def extract_hidden_fields_def
      action_form_page_def empty_soup_def hidden_field_names_def by_name_step_def
      all_hidden_step_def Let_def)

section \<open>Facts about texts\<close>

lemma lower_append: "lower (a @ b) = lower a @ lower b"
  by (simp add: lower_def)


lemma contains_any_iff: "contains_any s ks \<longleftrightarrow> (\<exists>k \<in> set ks. contains s k)"
  by (simp add: contains_any_def list_ex_iff)

lemma strip_unchanged:
  assumes "s \<noteq> []" "\<not> is_space (hd s)" "\<not> is_space (last s)"
  shows "strip s = s"
proof -
  have front: "dropWhile is_space s = s"
    using assms(1,2) by (cases s) auto
  have "rev s \<noteq> []" "\<not> is_space (hd (rev s))"
    using assms(1,3) by (auto simp: hd_rev)
  then have "dropWhile is_space (rev s) = rev s"
    by (cases "rev s") auto
  with front show ?thesis by (simp add: strip_def)
qed

lemma padded_text:
  assumes "a \<noteq> []" "\<not> is_space (hd a)" "lower a = a"
  shows "lower (a @ padding) = a @ padding" and "strip (a @ padding) = a @ padding"
    and "500 < length (a @ padding)" and "set (a @ padding) = set (a @ ''z'')"
proof -
  have z: "lower_char CHR ''z'' = CHR ''z''" "\<not> is_space CHR ''z''"
    by code_simp+
  have "lower padding = padding"
    by (simp add: padding_def lower_def z)
  with assms(3) show "lower (a @ padding) = a @ padding"
    by (simp add: lower_append)
  have "padding \<noteq> []" "last padding = CHR ''z''"
    by (simp_all add: padding_def)
  then have "hd (a @ padding) = hd a" "last (a @ padding) = CHR ''z''" "a @ padding \<noteq> []"
    using assms(1) by simp_all
  then show "strip (a @ padding) = a @ padding"
    using assms(2) z(2) by (intro strip_unchanged) simp_all
  show "500 < length (a @ padding)"
    using assms(1) by (cases a) (simp_all add: padding_def)
  show "set (a @ padding) = set (a @ ''z'')"
    by (simp add: padding_def)
qed








section \<open>The secondary pass\<close>

lemma alternative_parsing_Some_iff:
  "(\<exists>cd. alternative_parsing s t case_type case_number filing_year = Some cd) \<longleftrightarrow>
     contains t case_number \<and> contains t (str_int filing_year) \<and> 500 < length (strip t)
     \<and> any_pattern (find_patterns t)"
  by (auto simp: alternative_parsing_def Let_def)

lemma mention_text_facts:
  "lower mention_text = mention_text" "strip mention_text = mention_text"
  "500 < length mention_text" "set mention_text = set ''case 123 of 2020 z''"
proof -
  have "lower ''case 123 of 2020 '' = ''case 123 of 2020 ''" "\<not> is_space (hd ''case 123 of 2020 '')"
    by code_simp+
  then show "lower mention_text = mention_text" "strip mention_text = mention_text"
    "500 < length mention_text" "set mention_text = set ''case 123 of 2020 z''"
    unfolding mention_text_def
    using padded_text [of "''case 123 of 2020 ''"] by simp_all
qed

lemma mention_text_mentions:
  "contains mention_text ''123''" "contains mention_text ''2020''" "contains mention_text ''case''"
proof -
  have "mention_text = ''case '' @ ''123'' @ ('' of 2020 '' @ padding)"
    by (simp add: mention_text_def)
  then show "contains mention_text ''123''"
    unfolding contains_iff by blast
  have "mention_text = ''case 123 of '' @ ''2020'' @ ('' '' @ padding)"
    by (simp add: mention_text_def)
  then show "contains mention_text ''2020''"
    unfolding contains_iff by blast
  have "mention_text = [] @ ''case'' @ ('' 123 of 2020 '' @ padding)"
    by (simp add: mention_text_def)
  then show "contains mention_text ''case''"
    unfolding contains_iff by blast
qed

lemma mention_page_placeholder:
  "\<exists>cd. alternative_parsing mention_page mention_text ''CC'' ''123'' 2020 = Some cd"
proof -
  have "str_int 2020 = ''2020''"
    by code_simp
  moreover have "''case'' \<in> set legal_terms"
    by (simp add: legal_terms_def)
  then have "any_pattern (find_patterns mention_text)"
    using mention_text_mentions(3)
    by (auto simp: any_pattern_def find_patterns_def filter_empty_conv mention_text_facts)
  ultimately show ?thesis
    unfolding alternative_parsing_Some_iff
    using mention_text_mentions(1,2) mention_text_facts by simp
qed


text \<open>
  C10: whenever \<^verbatim>\<open>_alternative_parsing\<close> returns its record, the filing date is the
  first of January of the year asked for and the two party lists hold the fixed advisory
  texts, whatever the page is.
\<close>

theorem alternative_parsing_placeholder_values:
  "alternative_parsing s page_text case_type case_number filing_year = Some cd \<Longrightarrow>
   filing_date cd = Some (str_int filing_year @ ''-01-01'')
   \<and> petitioner cd = [''Case information available - please check court website directly'']
   \<and> respondent cd = [''Detailed parsing required - manual verification recommended'']"
  by (auto simp: alternative_parsing_def Let_def split: if_splits)

theorem alternative_parsing_placeholder_values_witness:
  "alternative_parsing mention_page mention_text ''CC'' ''123'' 2020 \<noteq> None
   \<and> filing_date (the (alternative_parsing mention_page mention_text ''CC'' ''123'' 2020))
       = Some ''2020-01-01''
   \<and> petitioner (the (alternative_parsing mention_page mention_text ''CC'' ''123'' 2020))
       = [''Case information available - please check court website directly'']
   \<and> respondent (the (alternative_parsing mention_page mention_text ''CC'' ''123'' 2020))
       = [''Detailed parsing required - manual verification recommended'']"
proof -
  obtain cd where
    cd: "alternative_parsing mention_page mention_text ''CC'' ''123'' 2020 = Some cd"
    using mention_page_placeholder by blast
  have year: "str_int 2020 @ ''-01-01'' = ''2020-01-01''"
    by code_simp
  show ?thesis
    using alternative_parsing_placeholder_values [OF cd] cd year by simp
qed

section \<open>The not-found phrases\<close>




section \<open>The validity gate\<close>










section \<open>The order list\<close>

lemma row_order_step_distinct:
  "distinct (map description os) \<Longrightarrow> distinct (map description (row_order_step os cells))"
  by (auto simp: row_order_step_def Let_def list_ex_iff)

lemma item_order_step_distinct:
  "distinct (map description os) \<Longrightarrow> distinct (map description (item_order_step os it))"
  by (auto simp: item_order_step_def Let_def list_ex_iff)

lemma foldl_row_order_distinct:
  "distinct (map description os) \<Longrightarrow> distinct (map description (foldl row_order_step os rows))"
  by (induction rows arbitrary: os) (simp_all add: row_order_step_distinct)

lemma foldl_item_order_distinct:
  "distinct (map description os) \<Longrightarrow> distinct (map description (foldl item_order_step os items))"
  by (induction items arbitrary: os) (simp_all add: item_order_step_distinct)

text \<open>
  What does hold: the list has at most ten entries, the first ones discovered, and the
  table rows and the container items never add a description that is already there, so
  the list is free of duplicates whenever the PDF links alone are.
\<close>

lemma extract_orders_at_most_ten: "length (extract_orders s) \<le> 10"
  by (simp add: extract_orders_def)

lemma extract_orders_distinct_after_links:
  assumes "distinct (map description (foldl pdf_step [] (pdf_links s)))"
  shows "distinct (map description (extract_orders s))"
proof -
  have "distinct (map description (discovered_orders s))"
    using assms
    by (simp add: discovered_orders_def Let_def foldl_row_order_distinct foldl_item_order_distinct)
  then show ?thesis
    by (simp add: extract_orders_def take_map [symmetric] distinct_take)
qed

text \<open>
  C3 at a page with two PDF links of the same text: the first pass appends an entry for
  each link without comparing descriptions, as the two later passes do, and the list that
  \<^verbatim>\<open>_extract_orders\<close> returns has the description twice.
\<close>

theorem extract_orders_duplicate_descriptions:
  "map description (extract_orders two_downloads_page) = [''Download'', ''Download'']
   \<and> \<not> distinct (map description (extract_orders two_downloads_page))"
proof -
  have "map description (extract_orders two_downloads_page) = [''Download'', ''Download'']"
    by (simp add: extract_orders_def discovered_orders_def pdf_step_def two_downloads_page_def
        empty_soup_def Let_def)
  then show ?thesis by simp
qed

section \<open>Resolving the endpoint\<close>

text \<open>The nested tests of the loop are the acceptance test of the specification.\<close>

lemma probe_urls_Cons:
  "probe_urls net (url # urls) sc =
     (if candidate_accepted (net (get_request url))
      then (Some url, sc\<lparr>requests := requests sc @ [get_request url], working_url := Some url\<rparr>)
      else probe_urls net urls (sc\<lparr>requests := requests sc @ [get_request url]\<rparr>))"
  by (simp add: candidate_accepted_def signal_score_def Let_def split: http.splits)

lemma probe_urls_result:
  "fst (probe_urls net urls sc) = find (\<lambda>u. candidate_accepted (net (get_request u))) urls"
  by (induction urls arbitrary: sc) (simp_all add: probe_urls_Cons del: probe_urls.simps(2))

lemma probe_urls_requests:
  "requests (snd (probe_urls net urls sc)) = requests sc @ map get_request (probed net urls)"
  by (induction urls arbitrary: sc)
    (simp_all add: probe_urls_Cons probed_def del: probe_urls.simps(2))

lemma probe_urls_working_url:
  "working_url (snd (probe_urls net urls sc)) =
     (case find (\<lambda>u. candidate_accepted (net (get_request u))) urls of
        None \<Rightarrow> working_url sc | Some u \<Rightarrow> Some u)"
  by (induction urls arbitrary: sc)
    (simp_all add: probe_urls_Cons split: option.splits del: probe_urls.simps(2))

lemma probe_urls_search_urls: "search_urls (snd (probe_urls net urls sc)) = search_urls sc"
  by (induction urls arbitrary: sc) (simp_all add: probe_urls_Cons del: probe_urls.simps(2))

lemma find_working_url_fresh:
  assumes "\<not> truthy (working_url sc)"
  shows "fst (find_working_url net sc)
           = find (\<lambda>u. candidate_accepted (net (get_request u))) (search_urls sc)"
    and "requests (snd (find_working_url net sc))
           = requests sc @ map get_request (probed net (search_urls sc))"
    and "working_url (snd (find_working_url net sc))
           = (case find (\<lambda>u. candidate_accepted (net (get_request u))) (search_urls sc) of
                None \<Rightarrow> working_url sc | Some u \<Rightarrow> Some u)"
  using assms
  by (simp_all add: find_working_url_def probe_urls_result probe_urls_requests probe_urls_working_url)

lemma takeWhile_not_found: "find P xs = None \<Longrightarrow> takeWhile (\<lambda>x. \<not> P x) xs = xs"
  by (induction xs) (auto split: if_splits)

lemma probed_none:
  "find (\<lambda>u. candidate_accepted (net (get_request u))) urls = None \<Longrightarrow> probed net urls = urls"
  by (simp add: probed_def takeWhile_not_found)

lemma find_Some_split:
  "find P xs = Some u \<Longrightarrow> \<exists>before after. xs = before @ u # after \<and> P u \<and> (\<forall>b \<in> set before. \<not> P b)
     \<and> takeWhile (\<lambda>x. \<not> P x) xs = before"
proof (induction xs)
  case Nil
  then show ?case by simp
next
  case (Cons x xs)
  show ?case
  proof (cases "P x")
    case True
    with Cons.prems have "x = u" by simp
    with True have "x # xs = [] @ u # xs \<and> P u \<and> (\<forall>b \<in> set []. \<not> P b)
      \<and> takeWhile (\<lambda>x. \<not> P x) (x # xs) = []"
      by simp
    then show ?thesis by blast
  next
    case False
    with Cons.prems have "find P xs = Some u" by simp
    from Cons.IH [OF this] obtain before after where
      "xs = before @ u # after" "P u" "\<forall>b \<in> set before. \<not> P b"
      "takeWhile (\<lambda>x. \<not> P x) xs = before"
      by blast
    with False have "x # xs = (x # before) @ u # after \<and> P u \<and> (\<forall>b \<in> set (x # before). \<not> P b)
      \<and> takeWhile (\<lambda>x. \<not> P x) (x # xs) = x # before"
      by simp
    then show ?thesis by blast
  qed
qed

text \<open>Three known signals in the text give a score of three at least.\<close>

lemma signal_score_three:
  assumes "distinct [k1, k2, k3]" "set [k1, k2, k3] \<subseteq> set valid_indicators"
    and "contains (lower body) k1" "contains (lower body) k2" "contains (lower body) k3"
  shows "3 \<le> signal_score body"
proof -
  have "{k1, k2, k3} \<subseteq> set (filter (contains (lower body)) valid_indicators)"
    using assms by auto
  then have "card {k1, k2, k3} \<le> card (set (filter (contains (lower body)) valid_indicators))"
    by (intro card_mono) auto
  moreover have "card {k1, k2, k3} = 3"
    using assms(1) by simp
  moreover have "card (set (filter (contains (lower body)) valid_indicators))
      \<le> length (filter (contains (lower body)) valid_indicators)"
    by (rule card_length)
  ultimately show ?thesis
    by (simp add: signal_score_def)
qed

lemma court_home_text_facts:
  "lower court_home_text = court_home_text"
  "contains court_home_text ''district''" "contains court_home_text ''court''"
  "contains court_home_text ''wardha''"
  "set court_home_text = set ''district court wardha case status z''"
proof -
  have l: "lower ''district court wardha case status '' = ''district court wardha case status ''"
    "lower_char CHR ''z'' = CHR ''z''"
    by code_simp+
  then have "lower padding = padding"
    by (simp add: padding_def lower_def)
  with l(1) show "lower court_home_text = court_home_text"
    unfolding court_home_text_def lower_append by (simp only:)
  have "court_home_text = [] @ ''district'' @ ('' court wardha case status '' @ padding @ padding @ padding)"
    by (simp add: court_home_text_def)
  then show "contains court_home_text ''district''"
    unfolding contains_iff by blast
  have "court_home_text = ''district '' @ ''court'' @ ('' wardha case status '' @ padding @ padding @ padding)"
    by (simp add: court_home_text_def)
  then show "contains court_home_text ''court''"
    unfolding contains_iff by blast
  have "court_home_text = ''district court '' @ ''wardha'' @ ('' case status '' @ padding @ padding @ padding)"
    by (simp add: court_home_text_def)
  then show "contains court_home_text ''wardha''"
    unfolding contains_iff by blast
  show "set court_home_text = set ''district court wardha case status z''"
    by (simp add: court_home_text_def padding_def)
qed

lemma court_home_accepted:
  "body_text home = court_home_text \<Longrightarrow> status_code home = 200 \<Longrightarrow> content_length home = 1534 \<Longrightarrow>
   content_type home = ''text/html; charset=UTF-8'' \<Longrightarrow> candidate_accepted (Response home)"
proof -
  assume h: "body_text home = court_home_text" "status_code home = 200"
    "content_length home = 1534" "content_type home = ''text/html; charset=UTF-8''"
  have "3 \<le> signal_score court_home_text"
    by (rule signal_score_three [of "''district''" "''court''" "''wardha''"])
      (simp_all add: valid_indicators_def court_home_text_facts)
  moreover have "contains (lower ''text/html; charset=UTF-8'') ''html''"
    by code_simp
  ultimately show ?thesis
    using h by (simp add: candidate_accepted_def)
qed

lemma scenario_resolution:
  assumes "body_text home = court_home_text" "status_code home = 200" "content_length home = 1534"
    "content_type home = ''text/html; charset=UTF-8''"
  shows "find (\<lambda>u. candidate_accepted (scenario_network home (get_request u))) (search_urls new_scraper)
           = Some (base_url @ ''/case-status-search-by-case-type/'')"
    and "probed (scenario_network home) (search_urls new_scraper)
           = [base_url @ ''/case-status-search-by-case-number/'',
              base_url @ ''/case-status-search-by-case-type/'']"
proof -
  have first: "\<not> candidate_accepted (scenario_network home
      (get_request (base_url @ ''/case-status-search-by-case-number/'')))"
    by (simp add: scenario_network_def get_request_def candidate_accepted_def missing_response_def)
  have second: "candidate_accepted (scenario_network home
      (get_request (base_url @ ''/case-status-search-by-case-type/'')))"
    using court_home_accepted [OF assms]
    by (simp add: scenario_network_def get_request_def base_url_def)
  from first second
  show "find (\<lambda>u. candidate_accepted (scenario_network home (get_request u))) (search_urls new_scraper)
           = Some (base_url @ ''/case-status-search-by-case-type/'')"
    by (simp add: new_scraper_def)
  with first second
  show "probed (scenario_network home) (search_urls new_scraper)
           = [base_url @ ''/case-status-search-by-case-number/'',
              base_url @ ''/case-status-search-by-case-type/'']"
    by (simp add: probed_def new_scraper_def)
qed

text \<open>
  C6: on an instance without a cached URL, the resolver returns the first candidate, in
  the order of the list, whose request gives a response of status 200, with more than
  1000 bytes, \<open>html\<close> in its content type and at least three of the signal words in its
  lowered text; a request that raises counts as a refusal. It returns nothing when there
  is no such candidate. The requests it sends are those for the candidates up to the
  selected one, each once, and none for the later ones.
\<close>

theorem find_working_url_first_accepted:
  assumes "\<not> truthy (working_url sc)"
  shows "fst (find_working_url net sc)
           = find (\<lambda>u. candidate_accepted (net (get_request u))) (search_urls sc)
         \<and> requests (snd (find_working_url net sc))
           = requests sc @ map get_request
               (takeWhile (\<lambda>u. \<not> candidate_accepted (net (get_request u))) (search_urls sc) @
                (case fst (find_working_url net sc) of None \<Rightarrow> [] | Some u \<Rightarrow> [u]))
         \<and> (\<forall>e u. net (get_request u) = Failed e \<longrightarrow> fst (find_working_url net sc) \<noteq> Some u)"
proof -
  have res: "fst (find_working_url net sc)
           = find (\<lambda>u. candidate_accepted (net (get_request u))) (search_urls sc)"
    by (rule find_working_url_fresh(1) [OF assms])
  have "fst (find_working_url net sc) \<noteq> Some u" if "net (get_request u) = Failed e" for e u
  proof
    assume "fst (find_working_url net sc) = Some u"
    with res have "find (\<lambda>u. candidate_accepted (net (get_request u))) (search_urls sc) = Some u"
      by simp
    then have "candidate_accepted (net (get_request u))"
      by (auto simp: find_Some_iff)
    with that show False by (simp add: candidate_accepted_def)
  qed
  then show ?thesis
    using find_working_url_fresh(2) [OF assms, of net] res
    by (simp add: probed_def)
qed

theorem find_working_url_first_accepted_witness:
  "\<not> truthy (working_url new_scraper)
   \<and> fst (find_working_url (scenario_network court_home_response) new_scraper)
       = Some ''https://wardha.dcourts.gov.in/case-status-search-by-case-type/''
   \<and> requests (snd (find_working_url (scenario_network court_home_response) new_scraper))
       = [get_request ''https://wardha.dcourts.gov.in/case-status-search-by-case-number/'',
          get_request ''https://wardha.dcourts.gov.in/case-status-search-by-case-type/'']
   \<and> scenario_network court_home_response (get_request ''https://wardha.dcourts.gov.in/case-status/'')
       = Failed ''connection refused''
   \<and> fst (find_working_url (scenario_network court_home_response) new_scraper)
       \<noteq> Some ''https://wardha.dcourts.gov.in/case-status/''"
proof -
  have fresh: "\<not> truthy (working_url new_scraper)"
    by (simp add: new_scraper_def truthy_def)
  have home: "body_text court_home_response = court_home_text" "status_code court_home_response = 200"
    "content_length court_home_response = 1534"
    "content_type court_home_response = ''text/html; charset=UTF-8''"
    by (simp_all add: court_home_response_def)
  note found = scenario_resolution(1) [OF home]
  have before: "takeWhile (\<lambda>u. \<not> candidate_accepted (scenario_network court_home_response (get_request u)))
      (search_urls new_scraper) = [base_url @ ''/case-status-search-by-case-number/'']"
    using scenario_resolution(2) [OF home] found by (simp add: probed_def)
  have "requests new_scraper = []"
    by (simp add: new_scraper_def)
  moreover have "scenario_network court_home_response
      (get_request ''https://wardha.dcourts.gov.in/case-status/'') = Failed ''connection refused''"
    by (simp add: scenario_network_def get_request_def base_url_def)
  ultimately show ?thesis
    using find_working_url_first_accepted [OF fresh, of "scenario_network court_home_response"]
      fresh found before
    by (simp add: base_url_def)
qed

section \<open>Resolving twice\<close>

lemma find_working_url_returns_cached:
  assumes "fst (find_working_url net sc) = Some u" "[] \<notin> set (search_urls sc)"
  shows "working_url (snd (find_working_url net sc)) = Some u \<and> u \<noteq> []"
proof (cases "truthy (working_url sc)")
  case True
  with assms(1) show ?thesis
    by (auto simp: find_working_url_def truthy_def split: option.splits)
next
  case False
  from assms(1) find_working_url_fresh(1) [OF False, of net]
  have found: "find (\<lambda>u. candidate_accepted (net (get_request u))) (search_urls sc) = Some u"
    by simp
  then have "u \<in> set (search_urls sc)"
    by (auto simp: find_Some_iff)
  with assms(2) have "u \<noteq> []" by blast
  moreover have "working_url (snd (find_working_url net sc)) = Some u"
    using find_working_url_fresh(3) [OF False, of net] found by simp
  ultimately show ?thesis by simp
qed

lemma probed_prefix:
  "\<exists>rest. urls = probed net urls @ rest"
proof (cases "find (\<lambda>u. candidate_accepted (net (get_request u))) urls")
  case None
  then show ?thesis by (simp add: probed_none)
next
  case (Some u)
  from find_Some_split [OF Some] obtain before after where
    "urls = before @ u # after"
    "takeWhile (\<lambda>x. \<not> candidate_accepted (net (get_request x))) urls = before"
    by blast
  with Some have "urls = probed net urls @ after"
    by (simp add: probed_def)
  then show ?thesis by blast
qed

lemma distinct_probed: "distinct urls \<Longrightarrow> distinct (probed net urls)"
proof -
  assume d: "distinct urls"
  obtain rest where "urls = probed net urls @ rest"
    using probed_prefix by blast
  with d show ?thesis by (metis distinct_append)
qed

lemma inj_get_request: "inj get_request"
  by (rule injI) (simp add: get_request_def)

text \<open>
  C7, as the code has it: only a URL that was found is cached. When a call of the
  resolver returns a URL, the next call on the instance returns the same URL and sends no
  request, whatever the network does by then; and when the instance was fresh, with
  different candidates, no candidate was requested more than once over the two calls.
\<close>

theorem find_working_url_idempotent_after_success:
  assumes "fst (find_working_url net1 sc) = Some u" and "[] \<notin> set (search_urls sc)"
  shows "find_working_url net2 (snd (find_working_url net1 sc))
           = (Some u, snd (find_working_url net1 sc))
         \<and> (working_url sc = None \<and> requests sc = [] \<and> distinct (search_urls sc) \<longrightarrow>
              distinct (requests (snd (find_working_url net2 (snd (find_working_url net1 sc))))))"
proof -
  from find_working_url_returns_cached [OF assms]
  have cached: "working_url (snd (find_working_url net1 sc)) = Some u" "u \<noteq> []"
    by simp_all
  then have second: "find_working_url net2 (snd (find_working_url net1 sc))
           = (Some u, snd (find_working_url net1 sc))"
    by (simp add: find_working_url_def truthy_def)
  have "distinct (requests (snd (find_working_url net1 sc)))"
    if "working_url sc = None" "requests sc = []" "distinct (search_urls sc)"
  proof -
    from that(1) have "\<not> truthy (working_url sc)"
      by (simp add: truthy_def)
    from find_working_url_fresh(2) [OF this, of net1] that(2)
    have "requests (snd (find_working_url net1 sc)) = map get_request (probed net1 (search_urls sc))"
      by simp
    with distinct_probed [OF that(3), of net1] show ?thesis
      by (simp add: distinct_map inj_get_request [THEN inj_on_subset])
  qed
  with second show ?thesis by simp
qed

theorem find_working_url_idempotent_after_success_witness:
  "fst (find_working_url (scenario_network court_home_response) new_scraper)
       = Some (base_url @ ''/case-status-search-by-case-type/'')
   \<and> [] \<notin> set (search_urls new_scraper)
   \<and> find_working_url down_network (snd (find_working_url (scenario_network court_home_response) new_scraper))
       = (Some (base_url @ ''/case-status-search-by-case-type/''),
          snd (find_working_url (scenario_network court_home_response) new_scraper))
   \<and> working_url new_scraper = None \<and> requests new_scraper = [] \<and> distinct (search_urls new_scraper)
   \<and> distinct (requests (snd (find_working_url down_network
         (snd (find_working_url (scenario_network court_home_response) new_scraper)))))"
proof -
  have fresh: "\<not> truthy (working_url new_scraper)"
    by (simp add: new_scraper_def truthy_def)
  have home: "body_text court_home_response = court_home_text" "status_code court_home_response = 200"
    "content_length court_home_response = 1534"
    "content_type court_home_response = ''text/html; charset=UTF-8''"
    by (simp_all add: court_home_response_def)
  have h1: "fst (find_working_url (scenario_network court_home_response) new_scraper)
       = Some (base_url @ ''/case-status-search-by-case-type/'')"
    using find_working_url_fresh(1) [OF fresh] scenario_resolution(1) [OF home] by simp
  have h2: "[] \<notin> set (search_urls new_scraper)"
    by (simp add: new_scraper_def base_url_def)
  have h3: "working_url new_scraper = None" "requests new_scraper = []"
    "distinct (search_urls new_scraper)"
    by (simp_all add: new_scraper_def base_url_def)
  note twice = find_working_url_idempotent_after_success [OF h1 h2, of down_network]
  from twice have same:
    "find_working_url down_network (snd (find_working_url (scenario_network court_home_response) new_scraper))
       = (Some (base_url @ ''/case-status-search-by-case-type/''),
          snd (find_working_url (scenario_network court_home_response) new_scraper))"
    by (rule conjunct1)
  from twice h3 have once:
    "distinct (requests (snd (find_working_url down_network
         (snd (find_working_url (scenario_network court_home_response) new_scraper)))))"
    by blast
  from h1 h2 same h3 once show ?thesis
    by blast
qed

text \<open>
  C7 as stated fails: while no candidate answers, nothing is cached, and the second call
  requests every candidate again.
\<close>

theorem find_working_url_probes_again_counterexample:
  "fst (find_working_url down_network new_scraper) = None
   \<and> requests (snd (find_working_url down_network (snd (find_working_url down_network new_scraper))))
       = map get_request (search_urls new_scraper) @ map get_request (search_urls new_scraper)
   \<and> count_list
        (requests (snd (find_working_url down_network (snd (find_working_url down_network new_scraper)))))
        (get_request ''https://wardha.dcourts.gov.in/case-status/'') = 2"
proof -
  have fresh: "\<not> truthy (working_url new_scraper)" "requests new_scraper = []"
    by (simp_all add: new_scraper_def truthy_def)
  have none: "find (\<lambda>u. candidate_accepted (down_network (get_request u))) urls = None" for urls
    by (simp add: find_None_iff down_network_def candidate_accepted_def)
  note down = none probed_none [OF none]
  let ?sc1 = "snd (find_working_url down_network new_scraper)"
  have r1: "fst (find_working_url down_network new_scraper) = None"
    "requests ?sc1 = map get_request (search_urls new_scraper)"
    "working_url ?sc1 = None"
    using find_working_url_fresh [OF fresh(1), of down_network] fresh down
    by (simp_all add: new_scraper_def)
  have urls1: "search_urls ?sc1 = search_urls new_scraper"
    using fresh(1) by (simp add: find_working_url_def probe_urls_search_urls)
  have "\<not> truthy (working_url ?sc1)"
    using r1(3) by (simp add: truthy_def)
  from find_working_url_fresh(2) [OF this, of down_network]
  have r2: "requests (snd (find_working_url down_network ?sc1))
     = map get_request (search_urls new_scraper) @ map get_request (search_urls new_scraper)"
    using r1(2) urls1 down by simp
  have "count_list (map get_request (search_urls new_scraper) @ map get_request (search_urls new_scraper))
          (get_request ''https://wardha.dcourts.gov.in/case-status/'') = 2"
    by (simp add: new_scraper_def base_url_def get_request_def)
  with r1(1) r2 show ?thesis by simp
qed

section \<open>Obstacle detection and the submissions\<close>















section \<open>The date normalizer\<close>

















end
